theory Spec2Isabelle
  imports Complex_Main
begin

section \<open>Python values shared by both modules\<close>

text \<open>
  Every \<^verbatim>\<open>raise\<close> of the two source files, and every exception the Python
  operations they use can throw on the paths modelled here, is a value of \<open>error\<close>.
  A fallible computation returns \<open>error + 'a\<close> with \<open>Inl\<close> for the exception.
  The specification's \<open>InvalidArgument\<close> and \<open>UnsupportedMetric\<close> are both Python's
  \<^verbatim>\<open>ValueError\<close> in the code; they differ by their message.
\<close>

datatype error =
    ValueError string
  | NotImplementedError
  | AttributeError string
  | AssertionError
  | IndexError
  | KeyError string
  | TypeError
  | StopIteration
  | StructureNotFound
  | ForwardError string

definition ebind :: "error + 'a \<Rightarrow> ('a \<Rightarrow> error + 'b) \<Rightarrow> error + 'b" where
  "ebind m f = (case m of Inl e \<Rightarrow> Inl e | Inr x \<Rightarrow> f x)"


section \<open>data.py\<close>

subsection \<open>Datasets\<close>

text \<open>
  A \<^verbatim>\<open>Dataset\<close> is a table: its columns in order, each with one cell per row.
  A \<^verbatim>\<open>DatasetDict\<close> maps split names to tables, in insertion order.
\<close>

datatype cell = Text string | Ids "nat list" | Idx nat

type_synonym table = "(string \<times> cell list) list"

datatype dataset = Dataset table | DatasetDict "(string \<times> table) list"

definition column_names :: "table \<Rightarrow> string list" where
  "column_names t = map fst t"


subsection \<open>\<^verbatim>\<open>get_columns_all_equal\<close>\<close>

text \<open>
  \<^verbatim>\<open>next(iter(cols_by_split))\<close> raises \<^verbatim>\<open>StopIteration\<close> on a
  \<^verbatim>\<open>DatasetDict\<close> without splits; \<^verbatim>\<open>cols == columns\<close> compares two lists of
  column names, order included.
\<close>

fun get_columns_all_equal :: "dataset \<Rightarrow> error + string list" where
  "get_columns_all_equal (DatasetDict splits) =
     (let cols_by_split = map (\<lambda>(name, t). column_names t) splits in
      case cols_by_split of
        [] \<Rightarrow> Inl StopIteration
      | columns # _ \<Rightarrow>
          if \<not> list_all (\<lambda>cols. cols = columns) cols_by_split
          then Inl (ValueError ''All splits must have the same columns'')
          else Inr columns)"
| "get_columns_all_equal (Dataset t) = Inr (column_names t)"

subsection \<open>The tokenizer\<close>

text \<open>
  The tokenizer is a collaborator (\<^verbatim>\<open>transformers.PreTrainedTokenizerBase\<close>): its
  vocabulary and its encoding are parameters. Token ids are natural numbers.
\<close>

record tokenizer =
  eos_token :: "string option"
  model_max_length :: nat
  encode :: "string \<Rightarrow> nat list"
  convert_ids_to_tokens :: "nat list \<Rightarrow> string list"

text \<open>
  Calling the tokenizer with \<^verbatim>\<open>truncation=True, return_overflowing_tokens=True\<close>
  cuts the encoded text into consecutive windows of \<open>max_length\<close> tokens; the last
  window holds what is left and is the only one that can be shorter. The result has three
  keys, one entry per window under each.
\<close>

function windows :: "nat \<Rightarrow> 'a list \<Rightarrow> 'a list list" where
  "windows m xs =
     (if m = 0 \<or> length xs \<le> m then [xs] else take m xs # windows m (drop m xs))"
  by pat_completeness auto
termination
  by (relation "measure (\<lambda>(m, xs). length xs)") auto

declare windows.simps [simp del]


subsection \<open>\<^verbatim>\<open>_tokenize_fn\<close>\<close>





subsection \<open>\<^verbatim>\<open>chunk_and_tokenize\<close>\<close>








section \<open>plotting.py\<close>

subsection \<open>Tensors\<close>

text \<open>
  A hidden state or a logits tensor has shape \<open>[batch, seq_len, dim]\<close>; the numbers are
  real numbers, so rounding is not part of the model. The elementwise operations with two
  operands are applied to tensors of one shape (in the plotting code both come out of the
  same forward pass); what \<^verbatim>\<open>torch\<close> does with two different shapes, broadcasting or
  raising, is not modelled.
\<close>

type_synonym tensor = "real list list list"

type_synonym matrix = "real list list"

definition log_softmax_vec :: "real list \<Rightarrow> real list" where
  "log_softmax_vec v = map (\<lambda>x. x - ln (\<Sum>y\<leftarrow>v. exp y)) v"

definition log_softmax :: "tensor \<Rightarrow> tensor" where
  "log_softmax t = map (map log_softmax_vec) t"

definition t_exp :: "tensor \<Rightarrow> tensor" where
  "t_exp t = map (map (map exp)) t"

definition t_mul :: "tensor \<Rightarrow> tensor \<Rightarrow> tensor" where
  "t_mul a b = map2 (map2 (map2 (*))) a b"

definition t_sub :: "tensor \<Rightarrow> tensor \<Rightarrow> tensor" where
  "t_sub a b = map2 (map2 (map2 (-))) a b"

definition t_add :: "tensor \<Rightarrow> tensor \<Rightarrow> tensor" where
  "t_add a b = map2 (map2 (map2 (+))) a b"

definition zeros_like :: "tensor \<Rightarrow> tensor" where
  "zeros_like t = map (map (map (\<lambda>_. 0))) t"

text \<open>\<^verbatim>\<open>th.sum(t, dim=-1)\<close> and the negation of its result.\<close>

definition sum_last :: "tensor \<Rightarrow> matrix" where
  "sum_last t = map (map sum_list) t"

definition m_neg :: "matrix \<Rightarrow> matrix" where
  "m_neg m = map (map uminus) m"

text \<open>\<^verbatim>\<open>x.argmax(-1)\<close>: the position of the largest entry (the first one, on a tie).\<close>

fun argmax_from :: "nat \<Rightarrow> real \<Rightarrow> nat \<Rightarrow> real list \<Rightarrow> nat" where
  "argmax_from best bv i [] = best"
| "argmax_from best bv i (x # xs) =
     (if bv < x then argmax_from i x (Suc i) xs else argmax_from best bv (Suc i) xs)"

definition argmax_vec :: "real list \<Rightarrow> nat" where
  "argmax_vec v = (case v of [] \<Rightarrow> 0 | x # xs \<Rightarrow> argmax_from 0 x 1 xs)"

definition argmax_last :: "tensor \<Rightarrow> nat list list" where
  "argmax_last t = map (map argmax_vec) t"

text \<open>\<^verbatim>\<open>.squeeze()\<close> removes the batch axis, which has size 1 in this pipeline.\<close>

definition squeeze :: "'a list list \<Rightarrow> 'a list" where
  "squeeze m = concat m"

subsection \<open>Python slices and indices\<close>

text \<open>\<^verbatim>\<open>xs[start:end]\<close> with step 1: negative bounds count from the end, all are clamped.\<close>

definition clamp_index :: "nat \<Rightarrow> int \<Rightarrow> nat" where
  "clamp_index n i = (if i < 0 then nat (max 0 (int n + i)) else min (nat i) n)"

definition py_slice :: "int \<Rightarrow> int option \<Rightarrow> 'a list \<Rightarrow> 'a list" where
  "py_slice s e xs =
     (let n = length xs;
          lo = clamp_index n s;
          hi = (case e of None \<Rightarrow> n | Some j \<Rightarrow> clamp_index n j)
      in take (hi - lo) (drop lo xs))"

text \<open>What \<^verbatim>\<open>xs[start:end]\<close> leaves of \<open>xs\<close> around new contents \<open>v\<close> of the slice.\<close>

definition py_paste :: "int \<Rightarrow> int option \<Rightarrow> 'a list \<Rightarrow> 'a list \<Rightarrow> 'a list" where
  "py_paste s e xs v =
     (let n = length xs;
          lo = clamp_index n s;
          hi = (case e of None \<Rightarrow> n | Some j \<Rightarrow> clamp_index n j)
      in take lo xs @ v @ drop (max lo hi) xs)"

text \<open>\<^verbatim>\<open>x[..., start:end, :]\<close> slices the sequence axis of every batch row.\<close>

definition t_slice :: "int \<Rightarrow> int option \<Rightarrow> tensor \<Rightarrow> tensor" where
  "t_slice s e t = map (py_slice s e) t"

definition t_paste :: "int \<Rightarrow> int option \<Rightarrow> tensor \<Rightarrow> tensor \<Rightarrow> tensor" where
  "t_paste s e t v = map2 (py_paste s e) t v"

text \<open>\<^verbatim>\<open>xs[i]\<close>: a negative index counts from the end, an index out of range raises.\<close>

definition py_index :: "'a list \<Rightarrow> int \<Rightarrow> error + 'a" where
  "py_index xs i =
     (let n = int (length xs); j = (if i < 0 then n + i else i)
      in if 0 \<le> j \<and> j < n then Inr (xs ! nat j) else Inl IndexError)"

text \<open>\<^verbatim>\<open>range(a, b)\<close>.\<close>

definition py_range :: "int \<Rightarrow> int \<Rightarrow> int list" where
  "py_range a b = [a..b - 1]"

text \<open>\<^verbatim>\<open>s.replace(old, new)\<close>, every occurrence from the left; an empty \<open>old\<close> matches
  before every character and at the end.\<close>

function replace :: "string \<Rightarrow> string \<Rightarrow> string \<Rightarrow> string" where
  "replace old new s =
     (if old = [] then new @ concat (map (\<lambda>c. c # new) s)
      else if s = [] then []
      else if take (length old) s = old then new @ replace old new (drop (length old) s)
      else hd s # replace old new (tl s))"
  by pat_completeness auto
termination
  by (relation "measure (\<lambda>(old, new, s). length s)") auto

declare replace.simps [simp del]

subsection \<open>Tensor objects\<close>

text \<open>
  Tensors are objects: the recorder keeps references to the tensors the model produced, and
  \<^verbatim>\<open>state += acc\<close> changes the object \<open>state\<close> refers to. The store holds the tensor
  objects by address. A reference is an object or a slice of a reference, which is a view
  on the same memory: reading it slices what the store holds, writing through it changes
  the object underneath.
\<close>

datatype tref = Obj nat | View tref int "int option"

fun deref :: "tensor list \<Rightarrow> tref \<Rightarrow> tensor" where
  "deref st (Obj a) = (if a < length st then st ! a else [])"
| "deref st (View r s e) = t_slice s e (deref st r)"

fun put :: "tensor list \<Rightarrow> tref \<Rightarrow> tensor \<Rightarrow> tensor list" where
  "put st (Obj a) v = st[a := v]"
| "put st (View r s e) v = put st r (t_paste s e (deref st r) v)"


text \<open>\<^verbatim>\<open>state += acc\<close> on tensors adds in place.\<close>

definition iadd :: "tensor list \<Rightarrow> tref \<Rightarrow> tensor \<Rightarrow> tensor list" where
  "iadd st state acc = put st state (t_add (deref st state) acc)"

subsection \<open>The residual stream container\<close>

text \<open>
  Modelled from the spec: the class \<^verbatim>\<open>ResidualStream\<close> of the module
  \<^verbatim>\<open>residual_stream\<close>, whose code is missing. It is an ordered sequence of
  entries, the embeddings first when present, then the layers by depth; the plotting code
  reads its fields \<^verbatim>\<open>embeddings\<close> and \<^verbatim>\<open>layers\<close>. \<^verbatim>\<open>map\<close> applies a function to every
  entry and returns a new container of the same structure; \<^verbatim>\<open>pairwise_map\<close> applies a
  function to every pair of consecutive entries and returns a container one entry shorter.
\<close>

record 'a ResidualStream =
  embeddings :: "'a option"
  layers :: "'a list"

definition items :: "'a ResidualStream \<Rightarrow> 'a list" where
  "items s = (case embeddings s of None \<Rightarrow> [] | Some e \<Rightarrow> [e]) @ layers s"

definition smap :: "('a \<Rightarrow> 'b) \<Rightarrow> 'a ResidualStream \<Rightarrow> 'b ResidualStream" where
  "smap f s = \<lparr>embeddings = map_option f (embeddings s), layers = map f (layers s)\<rparr>"

definition pairwise_map :: "('a \<Rightarrow> 'a \<Rightarrow> 'b) \<Rightarrow> 'a ResidualStream \<Rightarrow> 'b ResidualStream" where
  "pairwise_map f s = \<lparr>embeddings = None, layers = map2 f (butlast (items s)) (tl (items s))\<rparr>"

subsection \<open>The world the pipeline runs in\<close>

text \<open>
  The state the plotting functions act on: the tensor objects, the capture points attached
  to the model (each belongs to one recording and watches one module), the entries each
  recording has captured so far, and what has been drawn.
\<close>

datatype module = Block nat | Attn nat | Mlp nat

datatype render =
    Heatmap "real list list" "string list list" "string list" string string int "real option"
  | Title string

record world =
  store :: "tensor list"
  hooks :: "(nat \<times> module) list"
  captured :: "tref list list"
  plots :: "render list"

text \<open>A computation in the world either raises or returns, and leaves a world behind.\<close>

type_synonym 'a comp = "world \<Rightarrow> (error + 'a) \<times> world"

definition wbind :: "'a comp \<Rightarrow> ('a \<Rightarrow> 'b comp) \<Rightarrow> 'b comp" where
  "wbind m f w = (case m w of (Inl e, w') \<Rightarrow> (Inl e, w') | (Inr x, w') \<Rightarrow> f x w')"

definition wreturn :: "'a \<Rightarrow> 'a comp" where
  "wreturn x w = (Inr x, w)"

definition wlift :: "error + 'a \<Rightarrow> 'a comp" where
  "wlift r w = (r, w)"

fun wmap :: "('a \<Rightarrow> 'b comp) \<Rightarrow> 'a list \<Rightarrow> 'b list comp" where
  "wmap f [] w = (Inr [], w)"
| "wmap f (x # xs) w =
     (case f x w of
        (Inl e, w') \<Rightarrow> (Inl e, w')
      | (Inr y, w') \<Rightarrow>
          (case wmap f xs w' of
             (Inl e, w'') \<Rightarrow> (Inl e, w'')
           | (Inr ys, w'') \<Rightarrow> (Inr (y # ys), w'')))"

text \<open>\<^verbatim>\<open>ResidualStream.map\<close> with a function that acts on the world.\<close>

definition smap_w :: "('a \<Rightarrow> 'b comp) \<Rightarrow> 'a ResidualStream \<Rightarrow> 'b ResidualStream comp" where
  "smap_w f s =
     (case embeddings s of
        None \<Rightarrow> wbind (wmap f (layers s)) (\<lambda>ls. wreturn \<lparr>embeddings = None, layers = ls\<rparr>)
      | Some e \<Rightarrow>
          wbind (f e) (\<lambda>e'.
          wbind (wmap f (layers s)) (\<lambda>ls. wreturn \<lparr>embeddings = Some e', layers = ls\<rparr>)))"

definition wread :: "tref \<Rightarrow> tensor comp" where
  "wread r w = (Inr (deref (store w) r), w)"

subsection \<open>The model\<close>

text \<open>
  The model is a collaborator. Calling it, or one of its transformer blocks, runs modules
  one after the other; each module that finishes has an output tensor, and the call ends
  with a result or with an exception. A call is given by the outputs of the modules that
  ran, in the order they ran, and by how it ended.
\<close>

type_synonym call = "(module \<times> tensor) list \<times> (error + tensor)"

datatype norm = LayerNorm "tensor \<Rightarrow> tensor" | OtherNorm "tensor \<Rightarrow> tensor"

record model =
  name_or_path :: string
  vocab_size :: nat
  forward :: "nat list \<Rightarrow> call"
  transformer_layers :: "(tensor \<Rightarrow> call) list option"
  final_layer_norm :: "norm option"
  output_embeddings :: "tensor \<Rightarrow> tensor"

text \<open>
  Every output of a module is a new tensor object. The capture points watching the module
  fire in the order they were attached, and each appends the object to its recording.
\<close>

definition fire :: "module \<times> tensor \<Rightarrow> world \<Rightarrow> world" where
  "fire ev w =
     (let a = length (store w) in
      w\<lparr>store := store w @ [snd ev],
        captured :=
          fold (\<lambda>(rid, m) cs. if m = fst ev then cs[rid := cs ! rid @ [Obj a]] else cs)
            (hooks w) (captured w)\<rparr>)"

definition call_module :: "call \<Rightarrow> tensor comp" where
  "call_module c w = (snd c, fold fire (fst c) w)"

text \<open>
  Modelled from the spec: the layer locator of the module \<^verbatim>\<open>model_surgery\<close>, whose
  code is missing. It finds the transformer blocks and the final normalization of a
  model and fails with \<open>StructureNotFound\<close> when there are none.
\<close>

definition get_transformer_layers :: "model \<Rightarrow> error + (tensor \<Rightarrow> call) list" where
  "get_transformer_layers m =
     (case transformer_layers m of None \<Rightarrow> Inl StructureNotFound | Some bs \<Rightarrow> Inr bs)"

definition get_final_layer_norm :: "model \<Rightarrow> error + norm" where
  "get_final_layer_norm m =
     (case final_layer_norm m of None \<Rightarrow> Inl StructureNotFound | Some n \<Rightarrow> Inr n)"

subsection \<open>The stream recorder\<close>

text \<open>
  Modelled from the spec: the scope \<^verbatim>\<open>record_residual_stream\<close> of the module
  \<^verbatim>\<open>residual_stream\<close>, whose code is missing. On entry it attaches a capture
  point to the output of each transformer block and, if \<open>sublayers\<close> is set, of each
  attention and MLP sub-block. While the scope is active every capture point appends the
  tensor it observes to the stream being built. On exit, normal or exceptional, it removes
  every capture point it attached; an exception of the wrapped call propagates unchanged.
\<close>

definition capture_targets :: "nat \<Rightarrow> bool \<Rightarrow> module list" where
  "capture_targets n sublayers =
     map Block [0..<n] @ (if sublayers then map Attn [0..<n] @ map Mlp [0..<n] else [])"

definition record_residual_stream ::
  "model \<Rightarrow> bool \<Rightarrow> 'a comp \<Rightarrow> ('a \<times> tref ResidualStream) comp" where
  "record_residual_stream m sublayers body w =
     (case get_transformer_layers m of
        Inl e \<Rightarrow> (Inl e, w)
      | Inr bs \<Rightarrow>
          (let rid = length (captured w);
               attached = map (\<lambda>t. (rid, t)) (capture_targets (length bs) sublayers);
               w1 = w\<lparr>hooks := hooks w @ attached, captured := captured w @ [[]]\<rparr>;
               (r, w2) = body w1;
               w3 = w2\<lparr>hooks := filter (\<lambda>(rid', t). rid' \<noteq> rid) (hooks w2)\<rparr>
           in (case r of
                 Inl e \<Rightarrow> (Inl e, w3)
               | Inr x \<Rightarrow> (Inr (x, \<lparr>embeddings = None, layers = captured w3 ! rid\<rparr>), w3))))"

subsection \<open>\<^verbatim>\<open>_run_inference\<close>\<close>

text \<open>
  \<^verbatim>\<open>AutoModelForCausalLM.from_pretrained\<close>, \<^verbatim>\<open>AutoTokenizer.from_pretrained\<close> and the
  two divergences of the module \<^verbatim>\<open>stats\<close> are parameters of the pipeline.
\<close>

record env =
  load_model :: "string \<Rightarrow> error + model"
  load_tokenizer :: "string \<Rightarrow> error + tokenizer"
  geodesic_distance :: "tensor \<Rightarrow> tensor \<Rightarrow> matrix"
  js_divergence :: "tensor \<Rightarrow> tensor \<Rightarrow> matrix"

datatype model_or_name = IsModel model | IsName string | IsOther

text \<open>
  The input ids are the ids of one sequence (the batch has size 1); the device of the
  model's parameters is not modelled. The function returns the model, the tokens, the
  logits of the forward pass and the recorded stream.
\<close>

definition run_inference ::
  "env \<Rightarrow> model_or_name \<Rightarrow> nat list option \<Rightarrow> string option \<Rightarrow> tokenizer option \<Rightarrow> bool
     \<Rightarrow> int \<Rightarrow> int option
     \<Rightarrow> (model \<times> string list \<times> tensor \<times> tref ResidualStream) comp" where
  "run_inference env model_or_name input_ids text tokenizer sublayers start_pos end_pos =
     wbind (wlift (case model_or_name of
                     IsModel m \<Rightarrow> Inr m
                   | IsName name \<Rightarrow> load_model env name
                   | IsOther \<Rightarrow>
                       Inl (ValueError ''model_or_name must be a model or a model name'')))
       (\<lambda>model.
     wbind (wlift (case tokenizer of
                     None \<Rightarrow> load_tokenizer env (name_or_path model)
                   | Some tok \<Rightarrow> Inr tok))
       (\<lambda>tokenizer.
     wbind (wlift (case text of
                     Some s \<Rightarrow> Inr (encode tokenizer s)
                   | None \<Rightarrow>
                       (case input_ids of
                          None \<Rightarrow> Inl (ValueError ''Either text or input_ids must be provided'')
                        | Some ids \<Rightarrow> Inr ids)))
       (\<lambda>input_ids.
     wbind (record_residual_stream model sublayers (call_module (forward model input_ids)))
       (\<lambda>(logits, stream).
          let tokens = convert_ids_to_tokens tokenizer input_ids in
          if start_pos > 0
          then wreturn (model, py_slice start_pos end_pos tokens,
                        t_slice start_pos end_pos logits,
                        smap (\<lambda>x. View x start_pos end_pos) stream)
          else wreturn (model, tokens, logits, stream)))))"

subsection \<open>\<^verbatim>\<open>plot_logit_lens\<close>: the residual means\<close>

text \<open>
  \<^verbatim>\<open>for state, mean in zip(reversed(stream), reversed(residual_means))\<close> walks both
  containers from the last entry and stops with the shorter one. \<open>acc\<close> is a new tensor
  that nothing else refers to, so it is a value of the loop; \<open>state\<close> and \<open>mean\<close> are
  references to tensor objects.
\<close>

fun means_loop :: "(tref \<times> tref) list \<Rightarrow> tensor \<Rightarrow> tensor list \<Rightarrow> tensor list" where
  "means_loop [] acc st = st"
| "means_loop ((state, mean) # ps) acc st =
     (let st' = iadd st state acc;
          acc' = t_add acc (deref st' mean)
      in means_loop ps acc' st')"

definition add_residual_means ::
  "tref ResidualStream \<Rightarrow> tref ResidualStream option \<Rightarrow> unit comp" where
  "add_residual_means stream residual_means w =
     (case residual_means of
        None \<Rightarrow> (Inr (), w)
      | Some means \<Rightarrow>
          (case py_index (layers means) 0 of
             Inl e \<Rightarrow> (Inl e, w)
           | Inr first \<Rightarrow>
               (let acc = zeros_like (deref (store w) first) in
                (Inr (),
                 w\<lparr>store :=
                     means_loop (zip (rev (items stream)) (rev (items means))) acc (store w)\<rparr>))))"

subsection \<open>\<^verbatim>\<open>plot_logit_lens\<close>: the lens\<close>

text \<open>
  \<^verbatim>\<open>decode_fn\<close>: the loop over \<^verbatim>\<open>range(L - extra_decoder_layers, L)\<close> calls
  \<^verbatim>\<open>layers[i]\<close> on the hidden state and keeps the first component of its answer.
\<close>

fun decode_loop :: "(tensor \<Rightarrow> call) list \<Rightarrow> int list \<Rightarrow> tensor \<Rightarrow> tensor comp" where
  "decode_loop blocks [] x w = (Inr x, w)"
| "decode_loop blocks (i # js) x w =
     (case py_index blocks i of
        Inl e \<Rightarrow> (Inl e, w)
      | Inr blk \<Rightarrow>
          (case call_module (blk x) w of
             (Inl e, w') \<Rightarrow> (Inl e, w')
           | (Inr y, w') \<Rightarrow> decode_loop blocks js y w'))"

definition decode_fn ::
  "(tensor \<Rightarrow> tensor) \<Rightarrow> (tensor \<Rightarrow> tensor) \<Rightarrow> (tensor \<Rightarrow> call) list \<Rightarrow> int \<Rightarrow> tensor
     \<Rightarrow> tensor comp" where
  "decode_fn E ln_f blocks extra_decoder_layers x =
     (let L = int (length blocks) in
      wbind (decode_loop blocks (py_range (L - extra_decoder_layers) L) x)
        (\<lambda>y. wreturn (log_softmax (E (ln_f y)))))"

text \<open>
  The tuned lens belongs to the module \<^verbatim>\<open>nn.tuned_lens\<close>; its \<^verbatim>\<open>transform\<close> is a
  parameter. \<^verbatim>\<open>assert isinstance(ln_f, th.nn.LayerNorm)\<close> fails on any other
  normalization.
\<close>

definition decode_stream ::
  "model \<Rightarrow> int \<Rightarrow> (tensor ResidualStream \<Rightarrow> error + tensor ResidualStream) option
     \<Rightarrow> tref ResidualStream \<Rightarrow> tensor ResidualStream comp" where
  "decode_stream model extra_decoder_layers tuned_lens stream =
     (case tuned_lens of
        Some transform \<Rightarrow>
          (\<lambda>w. (ebind (transform (smap (deref (store w)) stream))
                   (\<lambda>s. Inr (smap log_softmax s)), w))
      | None \<Rightarrow>
          (let E = output_embeddings model in
           wbind (wlift (get_final_layer_norm model)) (\<lambda>ln_f.
           wbind (wlift (case ln_f of
                           LayerNorm f \<Rightarrow> Inr f
                         | OtherNorm f \<Rightarrow> Inl AssertionError)) (\<lambda>ln_f.
           wbind (wlift (get_transformer_layers model)) (\<lambda>blocks.
             smap_w (\<lambda>r. wbind (wread r) (decode_fn E ln_f blocks extra_decoder_layers))
               stream)))))"

text \<open>
  Lines 43 to 76 of \<^verbatim>\<open>plot_logit_lens\<close>: the residual means, the lens, the top
  tokens and the colour scale. \<^verbatim>\<open>tokenizer\<close> is the caller's argument; when it is
  \<^verbatim>\<open>None\<close>, \<^verbatim>\<open>tokenizer.convert_ids_to_tokens\<close> raises \<^verbatim>\<open>AttributeError\<close>.
  \<^verbatim>\<open>math.log(0)\<close> raises \<^verbatim>\<open>ValueError\<close>.
\<close>

definition lens_stage ::
  "model \<Rightarrow> tref ResidualStream \<Rightarrow> int \<Rightarrow> tref ResidualStream option
     \<Rightarrow> (tensor ResidualStream \<Rightarrow> error + tensor ResidualStream) option
     \<Rightarrow> tokenizer option \<Rightarrow> string \<Rightarrow> string
     \<Rightarrow> (tensor ResidualStream \<times> string list ResidualStream \<times> real option) comp" where
  "lens_stage model stream extra_decoder_layers residual_means tuned_lens tokenizer
       whitespace_token whitespace_replacement =
     wbind (add_residual_means stream residual_means) (\<lambda>_.
     wbind (decode_stream model extra_decoder_layers tuned_lens stream) (\<lambda>hidden_lps.
     let top_tokens = smap (\<lambda>x. squeeze (argmax_last x)) hidden_lps in
     wbind (wlift (case tokenizer of
                     None \<Rightarrow> Inl (AttributeError ''convert_ids_to_tokens'')
                   | Some tok \<Rightarrow> Inr (smap (convert_ids_to_tokens tok) top_tokens)))
       (\<lambda>top_strings.
     let top_strings = smap (map (replace whitespace_token whitespace_replacement)) top_strings in
     wbind (wlift (if vocab_size model = 0 then Inl (ValueError ''math domain error'')
                   else Inr (Some (ln (real (vocab_size model))))))
       (\<lambda>max_color.
     wreturn (hidden_lps, top_strings, max_color)))))"

subsection \<open>\<^verbatim>\<open>plot_logit_lens\<close>: the metric\<close>

text \<open>Lines 77 to 95: the statistics of the chosen metric, or the exception.\<close>

definition metric_stats ::
  "env \<Rightarrow> string \<Rightarrow> tensor \<Rightarrow> tensor ResidualStream \<Rightarrow> string list ResidualStream
     \<Rightarrow> real option
     \<Rightarrow> error + (matrix ResidualStream \<times> string list ResidualStream \<times> real option)" where
  "metric_stats env metric logits hidden_lps top_strings max_color =
     (if metric = ''ce'' then Inl NotImplementedError
      else if metric = ''entropy'' then
        Inr (smap (\<lambda>x. m_neg (sum_last (t_mul (t_exp x) x))) hidden_lps, top_strings, max_color)
      else if metric = ''geodesic'' then
        Inr (pairwise_map (geodesic_distance env) hidden_lps,
             top_strings\<lparr>embeddings := None\<rparr>, None)
      else if metric = ''js'' then
        Inr (pairwise_map (js_divergence env) hidden_lps,
             top_strings\<lparr>embeddings := None\<rparr>, None)
      else if metric = ''kl'' then
        (let log_probs = log_softmax logits in
         Inr (smap (\<lambda>x. sum_last (t_mul (t_exp log_probs) (t_sub log_probs x))) hidden_lps,
              top_strings, max_color))
      else Inl (ValueError (''Unknown metric: '' @ metric)))"

subsection \<open>Rendering\<close>

text \<open>
  \<^verbatim>\<open>_plot_stream\<close> and \<^verbatim>\<open>plt.title\<close> draw. The drawing itself (stacking the
  matrices, the stride, the figure) is outside the model: each call is recorded with what
  it was given.
\<close>

definition plot_stream ::
  "real list ResidualStream \<Rightarrow> string list ResidualStream \<Rightarrow> string list \<Rightarrow> string \<Rightarrow> string
     \<Rightarrow> int \<Rightarrow> real option \<Rightarrow> unit comp" where
  "plot_stream color_stream text_stream x_labels colorbar_label fmt layer_stride vmax w =
     (Inr (),
      w\<lparr>plots := plots w @
          [Heatmap (items color_stream) (items text_stream) x_labels colorbar_label fmt
             layer_stride vmax]\<rparr>)"

definition title :: "string \<Rightarrow> unit comp" where
  "title s w = (Inr (), w\<lparr>plots := plots w @ [Title s]\<rparr>)"

subsection \<open>\<^verbatim>\<open>plot_logit_lens\<close>\<close>

definition plot_logit_lens ::
  "env \<Rightarrow> model_or_name \<Rightarrow> nat list option \<Rightarrow> int \<Rightarrow> int \<Rightarrow> string
     \<Rightarrow> tref ResidualStream option \<Rightarrow> bool \<Rightarrow> int \<Rightarrow> int option \<Rightarrow> string option
     \<Rightarrow> (tensor ResidualStream \<Rightarrow> error + tensor ResidualStream) option
     \<Rightarrow> tokenizer option \<Rightarrow> string \<Rightarrow> string \<Rightarrow> unit comp" where
  "plot_logit_lens env model_or_name input_ids extra_decoder_layers layer_stride metric
       residual_means sublayers start_pos end_pos text tuned_lens tokenizer whitespace_token
       whitespace_replacement =
     wbind (run_inference env model_or_name input_ids text tokenizer sublayers start_pos end_pos)
       (\<lambda>(model, tokens, logits, stream).
     wbind (lens_stage model stream extra_decoder_layers residual_means tuned_lens tokenizer
              whitespace_token whitespace_replacement)
       (\<lambda>(hidden_lps, top_strings, max_color).
     wbind (wlift (metric_stats env metric logits hidden_lps top_strings max_color))
       (\<lambda>(stats, top_strings, max_color).
     wbind (plot_stream (smap squeeze stats) top_strings
              (map (replace whitespace_token whitespace_replacement) tokens)
              (metric @ '' (nats)'') [] layer_stride max_color)
       (\<lambda>_.
     title ((case tuned_lens of None \<Rightarrow> ''Logit'' | Some _ \<Rightarrow> ''Tuned'') @
            '' lens ('' @ name_or_path model @ '')'')))))"

section \<open>Notions used in the statements\<close>

subsection \<open>Chunks\<close>






subsection \<open>Capture points and recordings\<close>

text \<open>Every capture point on the model belongs to a recording that exists.\<close>

definition hooks_ok :: "world \<Rightarrow> bool" where
  "hooks_ok w = list_all (\<lambda>(rid, m). rid < length (captured w)) (hooks w)"

text \<open>
  What a recording that watches the modules \<open>targets\<close> has to hold once the modules
  \<open>evs\<close> have run and the first of their outputs got the address \<open>a\<close>: the outputs of
  the watched modules, each once, in the order the modules ran.
\<close>

fun watched_outputs :: "nat \<Rightarrow> module list \<Rightarrow> (module \<times> tensor) list \<Rightarrow> tref list" where
  "watched_outputs a targets [] = []"
| "watched_outputs a targets (ev # evs) =
     (if fst ev \<in> set targets then [Obj a] else []) @ watched_outputs (Suc a) targets evs"

text \<open>
  \<^verbatim>\<open>_run_inference\<close> from the point where the model, the tokenizer and the input
  ids are settled.
\<close>

definition recorded_pass ::
  "model \<Rightarrow> tokenizer \<Rightarrow> nat list \<Rightarrow> bool \<Rightarrow> int \<Rightarrow> int option
     \<Rightarrow> (model \<times> string list \<times> tensor \<times> tref ResidualStream) comp" where
  "recorded_pass m tok ids sublayers start_pos end_pos =
     wbind (record_residual_stream m sublayers (call_module (forward m ids)))
       (\<lambda>(logits, stream).
          let tokens = convert_ids_to_tokens tok ids in
          if start_pos > 0
          then wreturn (m, py_slice start_pos end_pos tokens,
                        t_slice start_pos end_pos logits,
                        smap (\<lambda>x. View x start_pos end_pos) stream)
          else wreturn (m, tokens, logits, stream))"

subsection \<open>Blocks, distributions\<close>

text \<open>Running transformer blocks one after the other, each on the answer of the one before.\<close>

fun run_blocks :: "(tensor \<Rightarrow> call) list \<Rightarrow> tensor \<Rightarrow> tensor comp" where
  "run_blocks [] x w = (Inr x, w)"
| "run_blocks (b # bs) x w =
     (case call_module (b x) w of
        (Inl e, w') \<Rightarrow> (Inl e, w')
      | (Inr y, w') \<Rightarrow> run_blocks bs y w')"




subsection \<open>What a computation leaves alone\<close>

text \<open>
  \<open>keeps R m\<close>: whatever world \<open>m\<close> starts in, the world it ends in is related to it
  by \<open>R\<close>. The relations of interest are reflexive, transitive and contain every output of
  a module.
\<close>

definition keeps :: "(world \<Rightarrow> world \<Rightarrow> bool) \<Rightarrow> 'a comp \<Rightarrow> bool" where
  "keeps R m = (\<forall>w. R w (snd (m w)))"

definition world_rel :: "(world \<Rightarrow> world \<Rightarrow> bool) \<Rightarrow> bool" where
  "world_rel R = ((\<forall>w. R w w) \<and> (\<forall>u v w. R u v \<longrightarrow> R v w \<longrightarrow> R u w) \<and> (\<forall>ev w. R w (fire ev w)))"

text \<open>Nothing was drawn.\<close>

definition plots_kept :: "world \<Rightarrow> world \<Rightarrow> bool" where
  "plots_kept w w' = (plots w' = plots w)"


subsection \<open>Concrete inputs\<close>

text \<open>A tokenizer with one token per character, windows of four tokens and \<open>|\<close> as separator.\<close>

definition tok0 :: tokenizer where
  "tok0 = \<lparr>eos_token = Some ''|'', model_max_length = 4, encode = map of_char,
           convert_ids_to_tokens = map (\<lambda>i. [char_of i])\<rparr>"

text \<open>
  A model of two blocks that pass their input on, with a vocabulary of two tokens. Its
  forward pass gives every token the hidden state \<open>[0, 0]\<close> in both blocks and the logits
  \<open>[0, 0]\<close>; on an empty input it raises after the first block.
\<close>

definition m0 :: model where
  "m0 = \<lparr>name_or_path = ''m0'', vocab_size = 2,
          forward = (\<lambda>ids. if ids = []
                           then ([(Block 0, [[]])], Inl (ForwardError ''empty input''))
                           else ([(Block 0, [map (\<lambda>i. [0, 0]) ids]),
                                  (Block 1, [map (\<lambda>i. [0, 0]) ids])],
                                 Inr [map (\<lambda>i. [0, 0]) ids])),
          transformer_layers = Some [\<lambda>x. ([(Block 0, x)], Inr x), \<lambda>x. ([(Block 1, x)], Inr x)],
          final_layer_norm = Some (LayerNorm (\<lambda>x. x)),
          output_embeddings = (\<lambda>x. x)\<rparr>"

text \<open>Nothing can be loaded by name.\<close>

definition env0 :: env where
  "env0 = \<lparr>load_model = (\<lambda>name. Inl (ForwardError ''offline'')),
            load_tokenizer = (\<lambda>name. Inl (ForwardError ''offline'')),
            geodesic_distance = (\<lambda>p q. []),
            js_divergence = (\<lambda>p q. [])\<rparr>"

text \<open>The empty world, and a world that holds two tensors of residual means.\<close>

definition w0 :: world where
  "w0 = \<lparr>store = [], hooks = [], captured = [], plots = []\<rparr>"



text \<open>Two blocks that can be told apart: the first adds one, the second doubles.\<close>

definition blocks0 :: "(tensor \<Rightarrow> call) list" where
  "blocks0 =
     [\<lambda>x. ([(Block 0, map (map (map (\<lambda>a. a + 1))) x)], Inr (map (map (map (\<lambda>a. a + 1))) x)),
      \<lambda>x. ([(Block 1, map (map (map (\<lambda>a. a * 2))) x)], Inr (map (map (map (\<lambda>a. a * 2))) x))]"

section \<open>Properties of \<^verbatim>\<open>data.py\<close>\<close>

subsection \<open>Errors and lists\<close>


lemma ebind_Inl_iff: "ebind m f = Inl e \<longleftrightarrow> (m = Inl e \<or> (\<exists>x. m = Inr x \<and> f x = Inl e))"
  by (cases m) (simp_all add: ebind_def)



lemma concat_windows: "concat (windows m xs) = xs"
proof (induction m xs rule: windows.induct)
  case (1 m xs)
  show ?case
  proof (cases "m = 0 \<or> length xs \<le> m")
    case True
    then show ?thesis by (subst windows.simps) simp
  next
    case False
    with "1.IH" have "concat (windows m (drop m xs)) = drop m xs" by simp
    with False show ?thesis by (subst windows.simps) simp
  qed
qed


lemma windows_length_le: "0 < m \<Longrightarrow> c \<in> set (windows m xs) \<Longrightarrow> length c \<le> m"
proof (induction m xs rule: windows.induct)
  case (1 m xs)
  show ?case
  proof (cases "length xs \<le> m")
    case True
    then have "windows m xs = [xs]" by (subst windows.simps) simp
    with "1.prems" True show ?thesis by simp
  next
    case False
    with "1.prems" have "windows m xs = take m xs # windows m (drop m xs)"
      by (subst windows.simps) simp
    with "1.prems" have "c \<in> set (take m xs # windows m (drop m xs))"
      by simp
    with False "1.IH" "1.prems"(1) show ?thesis by auto
  qed
qed


subsection \<open>\<^verbatim>\<open>get_columns_all_equal\<close>\<close>

lemma get_columns_all_equal_DatasetDict:
  "get_columns_all_equal (DatasetDict splits) =
     (case splits of
        [] \<Rightarrow> Inl StopIteration
      | (n, t) # _ \<Rightarrow>
          if list_all (\<lambda>(n', t'). column_names t' = column_names t) splits
          then Inr (column_names t)
          else Inl (ValueError ''All splits must have the same columns''))"
  by (auto simp: list_all_iff split: list.splits prod.splits)

text \<open>
  C8: on a \<^verbatim>\<open>DatasetDict\<close> in which two splits differ in their columns,
  \<^verbatim>\<open>get_columns_all_equal\<close> raises \<^verbatim>\<open>ValueError\<close> (the specification's
  \<open>InvalidArgument\<close>); when there is a split and all splits have the columns \<open>cols\<close>, it
  returns \<open>cols\<close>. The comparison is between lists of column names, so two splits whose
  column sets differ always differ.
\<close>

theorem get_columns_all_equal_mismatch_or_common:
  "((\<exists>s1 \<in> set splits. \<exists>s2 \<in> set splits. column_names (snd s1) \<noteq> column_names (snd s2)) \<longrightarrow>
      get_columns_all_equal (DatasetDict splits) =
        Inl (ValueError ''All splits must have the same columns'')) \<and>
   (splits \<noteq> [] \<and> (\<forall>s \<in> set splits. column_names (snd s) = cols) \<longrightarrow>
      get_columns_all_equal (DatasetDict splits) = Inr cols)"
proof (intro conjI impI)
  assume "\<exists>s1 \<in> set splits. \<exists>s2 \<in> set splits. column_names (snd s1) \<noteq> column_names (snd s2)"
  then obtain s1 s2 where s: "s1 \<in> set splits" "s2 \<in> set splits"
    and ne: "column_names (snd s1) \<noteq> column_names (snd s2)" by blast
  from s obtain n t rest where sp: "splits = (n, t) # rest" by (cases splits) auto
  have "column_names (snd s1) \<noteq> column_names t \<or> column_names (snd s2) \<noteq> column_names t"
    using ne by auto
  with s have "\<not> list_all (\<lambda>(n', t'). column_names t' = column_names t) splits"
    unfolding list_all_iff case_prod_unfold by blast
  then show "get_columns_all_equal (DatasetDict splits) =
        Inl (ValueError ''All splits must have the same columns'')"
    unfolding get_columns_all_equal_DatasetDict by (simp add: sp)
next
  assume a: "splits \<noteq> [] \<and> (\<forall>s \<in> set splits. column_names (snd s) = cols)"
  then obtain n t rest where sp: "splits = (n, t) # rest" by (cases splits) auto
  with a have t: "column_names t = cols" by auto
  from a have "list_all (\<lambda>(n', t'). column_names t' = column_names t) splits"
    unfolding list_all_iff case_prod_unfold t by blast
  then show "get_columns_all_equal (DatasetDict splits) = Inr cols"
    unfolding get_columns_all_equal_DatasetDict by (simp add: sp t)
qed

theorem get_columns_all_equal_mismatch_or_common_witness:
  "get_columns_all_equal
     (DatasetDict [(''train'', [(''text'', [Text ''a''])]),
                   (''test'', [(''text'', [Text ''b'']), (''meta'', [Text ''c''])])]) =
     Inl (ValueError ''All splits must have the same columns'') \<and>
   get_columns_all_equal
     (DatasetDict [(''train'', [(''text'', [Text ''a''])]),
                   (''test'', [(''text'', [Text ''b''])])]) = Inr [''text'']"
proof -
  let ?bad = "[(''train'', [(''text'', [Text ''a''])]),
               (''test'', [(''text'', [Text ''b'']), (''meta'', [Text ''c''])])]"
  let ?good = "[(''train'', [(''text'', [Text ''a''])]), (''test'', [(''text'', [Text ''b''])])]"
  have 1: "\<exists>s1 \<in> set ?bad. \<exists>s2 \<in> set ?bad. column_names (snd s1) \<noteq> column_names (snd s2)"
    by (auto simp: column_names_def)
  have 2: "?good \<noteq> [] \<and> (\<forall>s \<in> set ?good. column_names (snd s) = [''text''])"
    by (simp add: column_names_def)
  from get_columns_all_equal_mismatch_or_common [of ?bad "[]"] 1
       get_columns_all_equal_mismatch_or_common [of ?good "[''text'']"] 2
  show ?thesis by blast
qed

subsection \<open>\<^verbatim>\<open>chunk_and_tokenize\<close>\<close>

















section \<open>Properties of \<^verbatim>\<open>plotting.py\<close>\<close>

subsection \<open>Computations in the world, capture points\<close>

lemma wbind_wlift_Inl [simp]: "wbind (wlift (Inl e)) f w = (Inl e, w)"
  by (simp add: wbind_def wlift_def)

lemma wbind_wlift_Inr [simp]: "wbind (wlift (Inr x)) f w = f x w"
  by (simp add: wbind_def wlift_def)

lemma wbind_wreturn [simp]: "wbind (wreturn x) f w = f x w"
  by (simp add: wbind_def wreturn_def)

lemma fold_hooks_length:
  "length (fold (\<lambda>(rid, m) cs. if m = t then cs[rid := cs ! rid @ [x]] else cs) H cs) = length cs"
  by (induction H arbitrary: cs) (auto split: prod.splits)

lemma fold_hooks_nth:
  "r < length cs \<Longrightarrow>
    fold (\<lambda>(rid, m) cs. if m = t then cs[rid := cs ! rid @ [x]] else cs) H cs ! r =
      cs ! r @ replicate (count_list H (r, t)) x"
proof (induction H arbitrary: cs)
  case Nil
  then show ?case by simp
next
  case (Cons h H)
  obtain rid m where h: "h = (rid, m)" by (cases h)
  show ?case
  proof (cases "m = t")
    case False
    with Cons h show ?thesis by simp
  next
    case True
    let ?cs = "cs[rid := cs ! rid @ [x]]"
    have len: "r < length ?cs" using Cons.prems by simp
    have "fold (\<lambda>(rid, m) cs. if m = t then cs[rid := cs ! rid @ [x]] else cs) (h # H) cs ! r =
          ?cs ! r @ replicate (count_list H (r, t)) x"
      using Cons.IH [OF len] True h by simp
    also have "\<dots> = cs ! r @ replicate (count_list (h # H) (r, t)) x"
      using Cons.prems True h by (cases "rid = r") (simp_all add: replicate_app_Cons_same)
    finally show ?thesis .
  qed
qed

lemma fire_fields [simp]:
  "hooks (fire ev w) = hooks w"
  "plots (fire ev w) = plots w"
  "store (fire ev w) = store w @ [snd ev]"
  "length (captured (fire ev w)) = length (captured w)"
  by (simp_all add: fire_def Let_def fold_hooks_length)

lemma fire_captured:
  "r < length (captured w) \<Longrightarrow>
     captured (fire ev w) ! r =
       captured w ! r @ replicate (count_list (hooks w) (r, fst ev)) (Obj (length (store w)))"
  by (simp add: fire_def Let_def fold_hooks_nth)

lemma fold_fire_fields [simp]:
  "hooks (fold fire evs w) = hooks w"
  "plots (fold fire evs w) = plots w"
  "store (fold fire evs w) = store w @ map snd evs"
  "length (captured (fold fire evs w)) = length (captured w)"
  by (induction evs arbitrary: w) simp_all

lemma fold_fire_captured:
  assumes "r < length (captured w)"
    and "\<And>m. count_list (hooks w) (r, m) = (if m \<in> set targets then 1 else 0)"
  shows "captured (fold fire evs w) ! r =
           captured w ! r @ watched_outputs (length (store w)) targets evs"
  using assms
proof (induction evs arbitrary: w)
  case Nil
  then show ?case by simp
next
  case (Cons ev evs)
  have "captured (fold fire evs (fire ev w)) ! r =
          captured (fire ev w) ! r @ watched_outputs (length (store (fire ev w))) targets evs"
    using Cons.prems by (intro Cons.IH) simp_all
  then show ?case using Cons.prems by (simp add: fire_captured)
qed

lemma call_module_fields [simp]:
  "hooks (snd (call_module c w)) = hooks w"
  "plots (snd (call_module c w)) = plots w"
  "store (snd (call_module c w)) = store w @ map snd (fst c)"
  "length (captured (snd (call_module c w))) = length (captured w)"
  "fst (call_module c w) = snd c"
  by (simp_all add: call_module_def)

subsection \<open>The recorder\<close>

lemma count_list_distinct:
  "distinct xs \<Longrightarrow> count_list xs x = (if x \<in> set xs then 1 else 0)"
  by (induction xs) auto

lemma count_list_map_Pair:
  "count_list (map (\<lambda>t. (r, t)) ts) (r', m) = (if r' = r then count_list ts m else 0)"
  by (induction ts) auto

lemma distinct_capture_targets: "distinct (capture_targets n sub)"
  by (auto simp: capture_targets_def distinct_map inj_on_def)

lemma hooks_ok_count:
  "hooks_ok w \<Longrightarrow> count_list (hooks w) (length (captured w), m) = 0"
  by (auto simp: hooks_ok_def list_all_iff count_list_0_iff)

lemma hooks_ok_filter:
  "hooks_ok w \<Longrightarrow>
     filter (\<lambda>(rid', t). rid' \<noteq> length (captured w)) (hooks w) = hooks w"
  by (auto simp: hooks_ok_def list_all_iff intro!: filter_True)

lemma record_call_Inl:
  "transformer_layers m = None \<Longrightarrow>
     record_residual_stream m sub body w = (Inl StructureNotFound, w)"
  by (simp add: record_residual_stream_def get_transformer_layers_def)

lemma record_call_fields:
  assumes "transformer_layers m = Some bs"
  shows "store (snd (record_residual_stream m sub (call_module c) w)) = store w @ map snd (fst c)"
    and "plots (snd (record_residual_stream m sub (call_module c) w)) = plots w"
    and "length (captured (snd (record_residual_stream m sub (call_module c) w))) =
           Suc (length (captured w))"
    and "hooks_ok w \<Longrightarrow> hooks (snd (record_residual_stream m sub (call_module c) w)) = hooks w"
  using assms
  by (simp_all add: record_residual_stream_def get_transformer_layers_def Let_def call_module_def
        hooks_ok_filter split: sum.splits)

lemma record_call_result:
  assumes ok: "hooks_ok w" and bs: "transformer_layers m = Some bs"
  shows "fst (record_residual_stream m sub (call_module c) w) =
           (case snd c of
              Inl e \<Rightarrow> Inl e
            | Inr x \<Rightarrow>
                Inr (x, \<lparr>embeddings = None,
                         layers = watched_outputs (length (store w))
                                    (capture_targets (length bs) sub) (fst c)\<rparr>))"
proof -
  let ?rid = "length (captured w)"
  let ?ts = "capture_targets (length bs) sub"
  let ?w1 = "w\<lparr>hooks := hooks w @ map (\<lambda>t. (?rid, t)) ?ts, captured := captured w @ [[]]\<rparr>"
  have cnt: "\<And>t. count_list (hooks ?w1) (?rid, t) = (if t \<in> set ?ts then 1 else 0)"
    using hooks_ok_count [OF ok]
    by (simp add: count_list_map_Pair count_list_distinct [OF distinct_capture_targets])
  have "captured (fold fire (fst c) ?w1) ! ?rid =
          captured ?w1 ! ?rid @ watched_outputs (length (store ?w1)) ?ts (fst c)"
    by (rule fold_fire_captured [OF _ cnt]) simp
  then have cap: "captured (fold fire (fst c) ?w1) ! ?rid =
          watched_outputs (length (store w)) ?ts (fst c)"
    by simp
  show ?thesis
    using bs cap
    by (simp add: record_residual_stream_def get_transformer_layers_def Let_def call_module_def
          split: sum.splits)
qed

lemma record_call_hooks_ok:
  assumes ok: "hooks_ok w"
  shows "hooks_ok (snd (record_residual_stream m sub (call_module c) w))"
proof (cases "transformer_layers m")
  case None
  with ok show ?thesis by (simp add: record_call_Inl)
next
  case (Some bs)
  from ok show ?thesis
    unfolding hooks_ok_def record_call_fields(4) [OF Some ok] record_call_fields(3) [OF Some]
    by (auto simp: list_all_iff)
qed

subsection \<open>\<^verbatim>\<open>_run_inference\<close>\<close>




lemma char_of_97: "char_of (97::nat) = CHR ''a''"
  by code_simp

lemma run_inference_cases:
  "(\<exists>e. run_inference env mon ids tx tokz sub sp ep w = (Inl e, w)) \<or>
   (\<exists>m tok input. run_inference env mon ids tx tokz sub sp ep w =
                     recorded_pass m tok input sub sp ep w)"
  unfolding run_inference_def recorded_pass_def
  by (cases mon; cases tokz; cases tx; cases ids)
     (auto simp: wbind_def wlift_def split: sum.splits)

lemma run_inference_settled:
  "run_inference env (IsModel m) (Some ids) None (Some tok) sub sp ep w =
     recorded_pass m tok ids sub sp ep w"
  unfolding run_inference_def recorded_pass_def by simp

lemma recorded_pass_snd:
  "snd (recorded_pass m tok ids sub sp ep w) =
     snd (record_residual_stream m sub (call_module (forward m ids)) w)"
  unfolding recorded_pass_def
  by (cases "record_residual_stream m sub (call_module (forward m ids)) w")
     (auto simp: wbind_def wreturn_def Let_def split: sum.splits)

lemma recorded_pass_fst:
  "fst (recorded_pass m tok ids sub sp ep w) =
     (case fst (record_residual_stream m sub (call_module (forward m ids)) w) of
        Inl e \<Rightarrow> Inl e
      | Inr (logits, stream) \<Rightarrow>
          if sp > 0
          then Inr (m, py_slice sp ep (convert_ids_to_tokens tok ids), t_slice sp ep logits,
                    smap (\<lambda>x. View x sp ep) stream)
          else Inr (m, convert_ids_to_tokens tok ids, logits, stream))"
  unfolding recorded_pass_def
  by (cases "record_residual_stream m sub (call_module (forward m ids)) w")
     (auto simp: wbind_def wreturn_def Let_def split: sum.splits)

lemma recorded_pass_hooks:
  assumes "hooks_ok w"
  shows "hooks (snd (recorded_pass m tok ids sub sp ep w)) = hooks w"
    and "hooks_ok (snd (recorded_pass m tok ids sub sp ep w))"
proof -
  show "hooks (snd (recorded_pass m tok ids sub sp ep w)) = hooks w"
    unfolding recorded_pass_snd
    by (cases "transformer_layers m")
       (simp_all add: record_call_Inl record_call_fields(4) assms)
  show "hooks_ok (snd (recorded_pass m tok ids sub sp ep w))"
    unfolding recorded_pass_snd by (rule record_call_hooks_ok [OF assms])
qed

lemma run_inference_hooks:
  assumes "hooks_ok w"
  shows "hooks (snd (run_inference env mon ids tx tokz sub sp ep w)) = hooks w"
    and "hooks_ok (snd (run_inference env mon ids tx tokz sub sp ep w))"
  using run_inference_cases [of env mon ids tx tokz sub sp ep w] recorded_pass_hooks [OF assms]
        assms
  by auto

lemma run_inference_result:
  assumes ok: "hooks_ok w" and bs: "transformer_layers m = Some bs" and sp: "sp \<le> 0"
  shows "fst (run_inference env (IsModel m) (Some ids) None (Some tok) sub sp ep w) =
           (case snd (forward m ids) of
              Inl e \<Rightarrow> Inl e
            | Inr logits \<Rightarrow>
                Inr (m, convert_ids_to_tokens tok ids, logits,
                     \<lparr>embeddings = None,
                      layers = watched_outputs (length (store w))
                                 (capture_targets (length bs) sub) (fst (forward m ids))\<rparr>))"
  unfolding run_inference_settled recorded_pass_fst record_call_result [OF ok bs]
  using sp by (simp split: sum.splits)

lemma length_watched_outputs:
  "length (watched_outputs a ts evs) = length (filter (\<lambda>ev. fst ev \<in> set ts) evs)"
  by (induction evs arbitrary: a) simp_all

text \<open>
  C9: in a world whose capture points all belong to existing recordings, and for a model
  whose blocks are found, \<^verbatim>\<open>_run_inference\<close> leaves the capture points on the model
  exactly as it found them, however it ends; an exception of the forward pass comes out of
  \<^verbatim>\<open>_run_inference\<close> unchanged; and a second recording on the same model, started in
  the world the first call left behind, returns a stream that holds the outputs of the
  watched modules of its own forward pass, each once and in order, so as many entries as
  watched modules ran.
\<close>

theorem recorder_released_on_every_exit:
  assumes ok: "hooks_ok w" and bs: "transformer_layers m = Some bs"
  shows
    "hooks (snd (run_inference env (IsModel m) input_ids text tokenizer sublayers start_pos end_pos w)) = hooks w \<and>
     (snd (forward m ids) = Inl e \<longrightarrow>
        fst (run_inference env (IsModel m) (Some ids) None (Some tok) sub sp ep w) = Inl e) \<and>
     (sp' \<le> 0 \<longrightarrow>
        fst (run_inference env (IsModel m) (Some ids') None (Some tok') sub' sp' ep'
               (snd (run_inference env (IsModel m) input_ids text tokenizer sublayers start_pos end_pos w))) =
          (case snd (forward m ids') of
             Inl e \<Rightarrow> Inl e
           | Inr logits \<Rightarrow>
               Inr (m, convert_ids_to_tokens tok' ids', logits,
                    \<lparr>embeddings = None,
                     layers =
                       watched_outputs
                         (length (store (snd (run_inference env (IsModel m) input_ids text tokenizer
                                                sublayers start_pos end_pos w))))
                         (capture_targets (length bs) sub') (fst (forward m ids'))\<rparr>))) \<and>
     length (watched_outputs a (capture_targets (length bs) sub') (fst (forward m ids'))) =
       length (filter (\<lambda>ev. fst ev \<in> set (capture_targets (length bs) sub'))
                 (fst (forward m ids')))"
proof -
  let ?w1 = "snd (run_inference env (IsModel m) input_ids text tokenizer sublayers start_pos end_pos w)"
  have a: "hooks ?w1 = hooks w" and ok1: "hooks_ok ?w1"
    using run_inference_hooks [OF ok] by blast+
  have b: "snd (forward m ids) = Inl e \<longrightarrow>
        fst (run_inference env (IsModel m) (Some ids) None (Some tok) sub sp ep w) = Inl e"
    unfolding run_inference_settled recorded_pass_fst record_call_result [OF ok bs]
    by simp
  have c: "sp' \<le> 0 \<longrightarrow>
        fst (run_inference env (IsModel m) (Some ids') None (Some tok') sub' sp' ep' ?w1) =
          (case snd (forward m ids') of
             Inl e \<Rightarrow> Inl e
           | Inr logits \<Rightarrow>
               Inr (m, convert_ids_to_tokens tok' ids', logits,
                    \<lparr>embeddings = None,
                     layers = watched_outputs (length (store ?w1))
                                (capture_targets (length bs) sub') (fst (forward m ids'))\<rparr>))"
    using run_inference_result [OF ok1 bs] by blast
  from a b c length_watched_outputs show ?thesis by blast
qed

subsection \<open>\<^verbatim>\<open>decode_fn\<close>\<close>

lemma py_range_upt:
  "0 \<le> a \<Longrightarrow> py_range a (int n) = map int [nat a..<n]"
proof (induction "n - nat a" arbitrary: a)
  case 0
  then have "int n - 1 < a" by linarith
  with 0 show ?case by (simp add: py_range_def)
next
  case (Suc k)
  then have lt: "nat a < n" and le: "a \<le> int n - 1" by linarith+
  have "py_range a (int n) = a # py_range (a + 1) (int n)"
    using le by (simp add: py_range_def upto_rec1)
  also have "py_range (a + 1) (int n) = map int [nat (a + 1)..<n]"
    using Suc by (intro Suc.hyps(1)) linarith+
  also have "nat (a + 1) = Suc (nat a)" using Suc.prems by linarith
  finally show ?case using lt Suc.prems by (simp add: upt_conv_Cons)
qed

lemma py_range_empty: "b \<le> a \<Longrightarrow> py_range a b = []"
  by (simp add: py_range_def)

lemma py_index_nat: "i < length xs \<Longrightarrow> py_index xs (int i) = Inr (xs ! i)"
  by (simp add: py_index_def)

lemma decode_loop_drop:
  "a \<le> length blocks \<Longrightarrow>
     decode_loop blocks (map int [a..<length blocks]) x w = run_blocks (drop a blocks) x w"
proof (induction "length blocks - a" arbitrary: a x w)
  case 0
  then show ?case by simp
next
  case (Suc k)
  then have lt: "a < length blocks" by linarith
  have d: "drop a blocks = blocks ! a # drop (Suc a) blocks"
    using lt by (simp add: Cons_nth_drop_Suc)
  have ih: "\<And>y w'. decode_loop blocks (map int [Suc a..<length blocks]) y w' =
                     run_blocks (drop (Suc a) blocks) y w'"
    using Suc by (intro Suc.hyps(1)) linarith+
  show ?case
    using lt by (simp add: upt_conv_Cons py_index_nat d ih split: prod.splits sum.splits)
qed

lemma decode_fn_reruns_final_blocks:
  "(0 \<le> k \<and> k \<le> int (length blocks) \<longrightarrow>
      decode_fn E ln_f blocks k x w =
        (case run_blocks (drop (length blocks - nat k) blocks) x w of
           (Inl e, w') \<Rightarrow> (Inl e, w')
         | (Inr y, w') \<Rightarrow> (Inr (log_softmax (E (ln_f y))), w'))) \<and>
   (k \<le> 0 \<longrightarrow> decode_fn E ln_f blocks k x w = (Inr (log_softmax (E (ln_f x))), w))"
proof (intro conjI impI)
  assume k: "0 \<le> k \<and> k \<le> int (length blocks)"
  let ?L = "length blocks"
  have n: "nat (int ?L - k) = ?L - nat k" using k by linarith
  have "py_range (int ?L - k) (int ?L) = map int [?L - nat k..<?L]"
    using k py_range_upt [of "int ?L - k" ?L] n by simp
  then have "decode_loop blocks (py_range (int ?L - k) (int ?L)) x w =
             run_blocks (drop (?L - nat k) blocks) x w"
    using decode_loop_drop [of "?L - nat k" blocks x w] by simp
  then show "decode_fn E ln_f blocks k x w =
        (case run_blocks (drop (?L - nat k) blocks) x w of
           (Inl e, w') \<Rightarrow> (Inl e, w')
         | (Inr y, w') \<Rightarrow> (Inr (log_softmax (E (ln_f y))), w'))"
    by (simp add: decode_fn_def Let_def wbind_def wreturn_def split: prod.splits sum.splits)
next
  assume "k \<le> 0"
  then have "py_range (int (length blocks) - k) (int (length blocks)) = []"
    by (intro py_range_empty) simp
  then show "decode_fn E ln_f blocks k x w = (Inr (log_softmax (E (ln_f x))), w)"
    by (simp add: decode_fn_def Let_def wbind_def wreturn_def)
qed

subsection \<open>Entropy\<close>







subsection \<open>What the stages leave alone\<close>

lemma world_rel_plots_kept: "world_rel plots_kept"
  by (simp add: world_rel_def plots_kept_def)


lemma world_rel_refl: "world_rel R \<Longrightarrow> R w w"
  unfolding world_rel_def by blast

lemma world_rel_trans: "world_rel R \<Longrightarrow> R u v \<Longrightarrow> R v w \<Longrightarrow> R u w"
  unfolding world_rel_def by blast

lemma world_rel_fire: "world_rel R \<Longrightarrow> R w (fire ev w)"
  unfolding world_rel_def by blast

lemma keepsI: "(\<And>w. R w (snd (m w))) \<Longrightarrow> keeps R m"
  by (simp add: keeps_def)

lemma keepsD: "keeps R m \<Longrightarrow> R w (snd (m w))"
  by (simp add: keeps_def)

lemma keeps_wlift: "world_rel R \<Longrightarrow> keeps R (wlift r)"
  by (simp add: keeps_def world_rel_refl wlift_def)

lemma keeps_wreturn: "world_rel R \<Longrightarrow> keeps R (wreturn x)"
  by (simp add: keeps_def world_rel_refl wreturn_def)

lemma keeps_wread: "world_rel R \<Longrightarrow> keeps R (wread r)"
  by (simp add: keeps_def world_rel_refl wread_def)

lemma keeps_wbind:
  assumes R: "world_rel R" and m: "keeps R m" and f: "\<And>x. keeps R (f x)"
  shows "keeps R (wbind m f)"
proof (rule keepsI)
  fix w
  obtain r w' where mw: "m w = (r, w')" by (cases "m w")
  have 1: "R w w'" using keepsD [OF m, of w] mw by simp
  show "R w (snd (wbind m f w))"
  proof (cases r)
    case (Inl e)
    with mw 1 show ?thesis by (simp add: wbind_def)
  next
    case (Inr x)
    have "R w' (snd (f x w'))" using keepsD [OF f] .
    with 1 have "R w (snd (f x w'))" by (rule world_rel_trans [OF R])
    with mw Inr show ?thesis by (simp add: wbind_def)
  qed
qed

lemma keeps_fold_fire: "world_rel R \<Longrightarrow> R w (fold fire evs w)"
proof (induction evs arbitrary: w)
  case Nil
  then show ?case by (simp add: world_rel_refl)
next
  case (Cons ev evs)
  have "R w (fire ev w)" using Cons.prems by (rule world_rel_fire)
  moreover have "R (fire ev w) (fold fire evs (fire ev w))" using Cons by simp
  ultimately show ?case using world_rel_trans [OF Cons.prems] by simp
qed

lemma keeps_call_module: "world_rel R \<Longrightarrow> keeps R (call_module c)"
  by (simp add: keeps_def call_module_def keeps_fold_fire)

lemma keeps_wmap:
  assumes R: "world_rel R" and f: "\<And>x. keeps R (f x)"
  shows "keeps R (wmap f xs)"
proof (induction xs)
  case Nil
  then show ?case using R by (simp add: keeps_def world_rel_refl)
next
  case (Cons x xs)
  have "wmap f (x # xs) = wbind (f x) (\<lambda>y. wbind (wmap f xs) (\<lambda>ys. wreturn (y # ys)))"
    by (auto simp: fun_eq_iff wbind_def wreturn_def split: prod.splits sum.splits)
  then show ?case
    using R f Cons by (simp add: keeps_wbind keeps_wreturn)
qed

lemma keeps_smap_w:
  assumes R: "world_rel R" and f: "\<And>x. keeps R (f x)"
  shows "keeps R (smap_w f s)"
  unfolding smap_w_def
  by (cases "embeddings s") (simp_all add: keeps_wbind keeps_wreturn keeps_wmap R f)

lemma keeps_decode_loop: "world_rel R \<Longrightarrow> keeps R (decode_loop blocks js x)"
proof (induction js arbitrary: x)
  case Nil
  then show ?case by (simp add: keeps_def world_rel_refl)
next
  case (Cons i js)
  have "decode_loop blocks (i # js) x =
          wbind (wlift (py_index blocks i))
            (\<lambda>blk. wbind (call_module (blk x)) (\<lambda>y. decode_loop blocks js y))"
    by (auto simp: fun_eq_iff wbind_def wlift_def split: prod.splits sum.splits)
  then show ?case
    using Cons by (simp add: keeps_wbind keeps_wlift keeps_call_module)
qed

lemma keeps_decode_fn: "world_rel R \<Longrightarrow> keeps R (decode_fn E ln_f blocks k x)"
  by (simp add: decode_fn_def Let_def keeps_wbind keeps_decode_loop keeps_wreturn)

lemma keeps_decode_stream: "world_rel R \<Longrightarrow> keeps R (decode_stream m k lens stream)"
  unfolding decode_stream_def
  by (cases lens)
     (simp_all add: Let_def keeps_wbind keeps_wlift keeps_smap_w keeps_wread keeps_decode_fn,
      simp add: keeps_def world_rel_refl)

lemma put_length [simp]: "length (put st r v) = length st"
  by (induction r arbitrary: v) simp_all


lemma means_loop_length [simp]: "length (means_loop ps acc st) = length st"
  by (induction ps acc st rule: means_loop.induct) (simp_all add: Let_def iadd_def)


lemma keeps_add_residual_means_plots: "keeps plots_kept (add_residual_means stream rm)"
  by (auto simp: keeps_def plots_kept_def add_residual_means_def Let_def
           split: option.splits sum.splits)


lemma keeps_lens_stage_plots:
  "keeps plots_kept (lens_stage m stream k rm lens tokz wt wr)"
  unfolding lens_stage_def Let_def
  by (intro keeps_wbind keeps_wlift keeps_wreturn keeps_decode_stream
        keeps_add_residual_means_plots world_rel_plots_kept)




lemma run_inference_plots:
  "plots (snd (run_inference env mon ids tx tokz sub sp ep w)) = plots w"
proof -
  have rp: "\<And>m tok input. plots (snd (recorded_pass m tok input sub sp ep w)) = plots w"
    unfolding recorded_pass_snd
    by (simp add: record_residual_stream_def call_module_def Let_def
          split: sum.splits prod.splits)
  from run_inference_cases [of env mon ids tx tokz sub sp ep w] rp
  show ?thesis by auto
qed

lemma metric_stats_unknown:
  "metric \<notin> {''ce'', ''entropy'', ''geodesic'', ''js'', ''kl''} \<Longrightarrow>
     metric_stats env metric logits hidden_lps top_strings max_color =
       Inl (ValueError (''Unknown metric: '' @ metric))"
  by (simp add: metric_stats_def)

lemma metric_stats_ce:
  "metric_stats env ''ce'' logits hidden_lps top_strings max_color = Inl NotImplementedError"
  by (simp add: metric_stats_def)

lemma plot_logit_lens_metric_raises:
  assumes "\<And>logits hidden_lps top_strings max_color.
             metric_stats env metric logits hidden_lps top_strings max_color = Inl err"
  shows "plots (snd (plot_logit_lens env mon ids k stride metric rm sub sp ep tx lens tokz wt wr w))
           = plots w"
    and "isl (fst (plot_logit_lens env mon ids k stride metric rm sub sp ep tx lens tokz wt wr w))"
    and "run_inference env mon ids tx tokz sub sp ep w = (Inr (m, tokens, logits, stream), w1) \<Longrightarrow>
         lens_stage m stream k rm lens tokz wt wr w1 = (Inr (hidden_lps, top_strings, max_color), w2)
         \<Longrightarrow> plot_logit_lens env mon ids k stride metric rm sub sp ep tx lens tokz wt wr w =
               (Inl err, w2)"
proof -
  let ?P = "plot_logit_lens env mon ids k stride metric rm sub sp ep tx lens tokz wt wr w"
  obtain r1 w1' where ri: "run_inference env mon ids tx tokz sub sp ep w = (r1, w1')"
    by (cases "run_inference env mon ids tx tokz sub sp ep w")
  have p1: "plots w1' = plots w" using run_inference_plots [of env mon ids tx tokz sub sp ep w] ri
    by simp
  show 3: "plot_logit_lens env mon ids k stride metric rm sub sp ep tx lens tokz wt wr w =
               (Inl err, w2)"
    if "run_inference env mon ids tx tokz sub sp ep w = (Inr (m, tokens, logits, stream), w1)"
       "lens_stage m stream k rm lens tokz wt wr w1 = (Inr (hidden_lps, top_strings, max_color), w2)"
    for m tokens logits stream w1 hidden_lps top_strings max_color w2
    using that assms by (simp add: plot_logit_lens_def wbind_def wlift_def)
  have "plots (snd ?P) = plots w \<and> isl (fst ?P)"
  proof (cases r1)
    case (Inl e)
    with ri p1 show ?thesis by (simp add: plot_logit_lens_def wbind_def)
  next
    case (Inr res)
    obtain m tokens logits stream where res: "res = (m, tokens, logits, stream)"
      by (cases res) auto
    obtain r2 w2' where ls: "lens_stage m stream k rm lens tokz wt wr w1' = (r2, w2')"
      by (cases "lens_stage m stream k rm lens tokz wt wr w1'")
    have p2: "plots w2' = plots w1'"
      using keepsD [OF keeps_lens_stage_plots, of w1' m stream k rm lens tokz wt wr] ls
      by (simp add: plots_kept_def)
    show ?thesis
    proof (cases r2)
      case (Inl e)
      with ri Inr res ls p1 p2 show ?thesis by (simp add: plot_logit_lens_def wbind_def)
    next
      case r2: (Inr x)
      obtain h ts mc where x: "x = (h, ts, mc)" by (cases x) auto
      from 3 [of m tokens logits stream w1' h ts mc w2'] ri Inr res ls r2 x p1 p2
      show ?thesis by simp
    qed
  qed
  then show "plots (snd ?P) = plots w" and "isl (fst ?P)" by blast+
qed

subsection \<open>The pipeline on the concrete model\<close>

lemmas eval_defs =
  run_inference_def record_residual_stream_def get_transformer_layers_def
  get_final_layer_norm_def call_module_def fire_def capture_targets_def
  wbind_def wreturn_def wlift_def wread_def Let_def
  lens_stage_def add_residual_means_def decode_stream_def smap_w_def decode_fn_def
  py_range_def py_index_def items_def smap_def iadd_def t_add_def zeros_like_def
  log_softmax_def log_softmax_vec_def argmax_last_def argmax_vec_def squeeze_def
  plot_logit_lens_def metric_stats_def plot_stream_def title_def

lemma run0:
  "run_inference env0 (IsModel m0) None (Some ''a'') (Some tok0) False 0 None w0 =
     (Inr (m0, [''a''], [[[0, 0]]], \<lparr>embeddings = None, layers = [Obj 0, Obj 1]\<rparr>),
      \<lparr>store = [[[[0, 0]]], [[[0, 0]]]], hooks = [], captured = [[Obj 0, Obj 1]], plots = []\<rparr>)"
  by (simp add: eval_defs m0_def w0_def tok0_def char_of_97)

lemma lens0:
  "lens_stage m0 \<lparr>embeddings = None, layers = [Obj 0, Obj 1]\<rparr> 0 None None (Some tok0) ''G'' '' ''
     \<lparr>store = [[[[0, 0]]], [[[0, 0]]]], hooks = [], captured = [[Obj 0, Obj 1]], plots = []\<rparr> =
   (Inr (\<lparr>embeddings = None, layers = [[[[- ln 2, - ln 2]]], [[[- ln 2, - ln 2]]]]\<rparr>,
         smap (map (replace ''G'' '' ''))
           (smap (convert_ids_to_tokens tok0) \<lparr>embeddings = None, layers = [[0], [0]]\<rparr>),
         Some (ln 2)),
    \<lparr>store = [[[[0, 0]]], [[[0, 0]]]], hooks = [], captured = [[Obj 0, Obj 1]], plots = []\<rparr>)"
  by (simp add: eval_defs m0_def)

subsection \<open>Metrics that raise\<close>

text \<open>
  C3: with a metric that is none of \<^verbatim>\<open>ce\<close>, \<^verbatim>\<open>entropy\<close>, \<^verbatim>\<open>geodesic\<close>,
  \<^verbatim>\<open>js\<close> and \<^verbatim>\<open>kl\<close>, \<^verbatim>\<open>plot_logit_lens\<close> raises and draws nothing; when
  inference and the lens have succeeded, the exception is
  \<^verbatim>\<open>ValueError("Unknown metric: ...")\<close> (the specification's \<open>UnsupportedMetric\<close>),
  raised in the world the lens left behind, before any statistics exist.
\<close>

theorem unknown_metric_raises_before_rendering:
  assumes "metric \<notin> {''ce'', ''entropy'', ''geodesic'', ''js'', ''kl''}"
  shows
    "plots (snd (plot_logit_lens env model_or_name input_ids extra_decoder_layers layer_stride
                   metric residual_means sublayers start_pos end_pos text tuned_lens tokenizer
                   whitespace_token whitespace_replacement w)) = plots w \<and>
     isl (fst (plot_logit_lens env model_or_name input_ids extra_decoder_layers layer_stride
                 metric residual_means sublayers start_pos end_pos text tuned_lens tokenizer
                 whitespace_token whitespace_replacement w)) \<and>
     (run_inference env model_or_name input_ids text tokenizer sublayers start_pos end_pos w =
        (Inr (model, tokens, logits, stream), w1) \<and>
      lens_stage model stream extra_decoder_layers residual_means tuned_lens tokenizer
        whitespace_token whitespace_replacement w1 =
        (Inr (hidden_lps, top_strings, max_color), w2) \<longrightarrow>
      plot_logit_lens env model_or_name input_ids extra_decoder_layers layer_stride
        metric residual_means sublayers start_pos end_pos text tuned_lens tokenizer
        whitespace_token whitespace_replacement w =
        (Inl (ValueError (''Unknown metric: '' @ metric)), w2))"
proof -
  note r = plot_logit_lens_metric_raises [where env = env and metric = metric
          and err = "ValueError (''Unknown metric: '' @ metric)",
          OF metric_stats_unknown [OF assms]]
  show ?thesis
    by (intro conjI impI) (rule r(1), rule r(2), erule conjE, erule r(3), assumption)
qed

theorem unknown_metric_raises_before_rendering_witness:
  "''bogus'' \<notin> {''ce'', ''entropy'', ''geodesic'', ''js'', ''kl''} \<and>
   plot_logit_lens env0 (IsModel m0) None 0 1 ''bogus'' None False 0 None (Some ''a'') None
     (Some tok0) ''G'' '' '' w0 =
     (Inl (ValueError ''Unknown metric: bogus''),
      \<lparr>store = [[[[0, 0]]], [[[0, 0]]]], hooks = [], captured = [[Obj 0, Obj 1]], plots = []\<rparr>) \<and>
   plots (snd (plot_logit_lens env0 (IsModel m0) None 0 1 ''bogus'' None False 0 None (Some ''a'')
                 None (Some tok0) ''G'' '' '' w0)) = plots w0"
proof -
  have notin: "''bogus'' \<notin> {''ce'', ''entropy'', ''geodesic'', ''js'', ''kl''}" by simp
  note inst = unknown_metric_raises_before_rendering [OF notin,
      where env = env0 and model_or_name = "IsModel m0" and input_ids = None
        and extra_decoder_layers = 0 and layer_stride = 1 and residual_means = None
        and sublayers = False and start_pos = 0 and end_pos = None and ?text = "Some ''a''"
        and tuned_lens = None and tokenizer = "Some tok0" and whitespace_token = "''G''"
        and whitespace_replacement = "'' ''" and w = w0
        and model = m0 and tokens = "[''a'']" and logits = "[[[0, 0]]]"
        and stream = "\<lparr>embeddings = None, layers = [Obj 0, Obj 1]\<rparr>"
        and ?w1.0 = "\<lparr>store = [[[[0, 0]]], [[[0, 0]]]], hooks = [], captured = [[Obj 0, Obj 1]],
                      plots = []\<rparr>"
        and hidden_lps = "\<lparr>embeddings = None,
                            layers = [[[[- ln 2, - ln 2]]], [[[- ln 2, - ln 2]]]]\<rparr>"
        and top_strings = "smap (map (replace ''G'' '' ''))
                             (smap (convert_ids_to_tokens tok0)
                                \<lparr>embeddings = None, layers = [[0], [0]]\<rparr>)"
        and max_color = "Some (ln 2)"
        and ?w2.0 = "\<lparr>store = [[[[0, 0]]], [[[0, 0]]]], hooks = [], captured = [[Obj 0, Obj 1]],
                      plots = []\<rparr>"]
  from inst notin run0 lens0 show ?thesis by (simp add: w0_def)
qed

text \<open>
  C10: with the metric \<^verbatim>\<open>ce\<close>, \<^verbatim>\<open>plot_logit_lens\<close> raises and draws nothing;
  when inference and the lens have succeeded, the exception is
  \<^verbatim>\<open>NotImplementedError\<close>, raised before any statistics exist.
\<close>

theorem ce_metric_not_implemented:
  "plots (snd (plot_logit_lens env model_or_name input_ids extra_decoder_layers layer_stride
                 ''ce'' residual_means sublayers start_pos end_pos text tuned_lens tokenizer
                 whitespace_token whitespace_replacement w)) = plots w \<and>
   isl (fst (plot_logit_lens env model_or_name input_ids extra_decoder_layers layer_stride
               ''ce'' residual_means sublayers start_pos end_pos text tuned_lens tokenizer
               whitespace_token whitespace_replacement w)) \<and>
   (run_inference env model_or_name input_ids text tokenizer sublayers start_pos end_pos w =
      (Inr (model, tokens, logits, stream), w1) \<and>
    lens_stage model stream extra_decoder_layers residual_means tuned_lens tokenizer
      whitespace_token whitespace_replacement w1 =
      (Inr (hidden_lps, top_strings, max_color), w2) \<longrightarrow>
    plot_logit_lens env model_or_name input_ids extra_decoder_layers layer_stride
      ''ce'' residual_means sublayers start_pos end_pos text tuned_lens tokenizer
      whitespace_token whitespace_replacement w =
      (Inl NotImplementedError, w2))"
proof -
  note r = plot_logit_lens_metric_raises [where env = env and metric = "''ce''"
          and err = NotImplementedError, OF metric_stats_ce]
  show ?thesis
    by (intro conjI impI) (rule r(1), rule r(2), erule conjE, erule r(3), assumption)
qed

theorem ce_metric_not_implemented_witness:
  "plot_logit_lens env0 (IsModel m0) None 0 1 ''ce'' None False 0 None (Some ''a'') None
     (Some tok0) ''G'' '' '' w0 =
     (Inl NotImplementedError,
      \<lparr>store = [[[[0, 0]]], [[[0, 0]]]], hooks = [], captured = [[Obj 0, Obj 1]], plots = []\<rparr>) \<and>
   plots (snd (plot_logit_lens env0 (IsModel m0) None 0 1 ''ce'' None False 0 None (Some ''a'')
                 None (Some tok0) ''G'' '' '' w0)) = plots w0"
proof -
  note inst = ce_metric_not_implemented [
      where env = env0 and model_or_name = "IsModel m0" and input_ids = None
        and extra_decoder_layers = 0 and layer_stride = 1 and residual_means = None
        and sublayers = False and start_pos = 0 and end_pos = None and ?text = "Some ''a''"
        and tuned_lens = None and tokenizer = "Some tok0" and whitespace_token = "''G''"
        and whitespace_replacement = "'' ''" and w = w0
        and model = m0 and tokens = "[''a'']" and logits = "[[[0, 0]]]"
        and stream = "\<lparr>embeddings = None, layers = [Obj 0, Obj 1]\<rparr>"
        and ?w1.0 = "\<lparr>store = [[[[0, 0]]], [[[0, 0]]]], hooks = [], captured = [[Obj 0, Obj 1]],
                      plots = []\<rparr>"
        and hidden_lps = "\<lparr>embeddings = None,
                            layers = [[[[- ln 2, - ln 2]]], [[[- ln 2, - ln 2]]]]\<rparr>"
        and top_strings = "smap (map (replace ''G'' '' ''))
                             (smap (convert_ids_to_tokens tok0)
                                \<lparr>embeddings = None, layers = [[0], [0]]\<rparr>)"
        and max_color = "Some (ln 2)"
        and ?w2.0 = "\<lparr>store = [[[[0, 0]]], [[[0, 0]]]], hooks = [], captured = [[Obj 0, Obj 1]],
                      plots = []\<rparr>"]
  from inst run0 lens0 show ?thesis by (simp add: w0_def)
qed

subsection \<open>Entropy and divergence\<close>














subsection \<open>The logit lens\<close>

lemma wmap_pure:
  "(\<And>x. f x w = (Inr (g x), w)) \<Longrightarrow> wmap f xs w = (Inr (map g xs), w)"
  by (induction xs) simp_all

lemma smap_w_pure:
  "(\<And>x. f x w = (Inr (g x), w)) \<Longrightarrow> smap_w f s w = (Inr (smap g s), w)"
  by (cases "embeddings s")
     (simp_all add: smap_w_def smap_def wbind_def wreturn_def wmap_pure)

lemma decode_stream_logit_lens:
  assumes "final_layer_norm m = Some (LayerNorm ln_f)" and "transformer_layers m = Some blocks"
  shows "decode_stream m k None stream =
           smap_w (\<lambda>r. wbind (wread r) (decode_fn (output_embeddings m) ln_f blocks k)) stream"
  using assms
  by (simp add: decode_stream_def get_final_layer_norm_def get_transformer_layers_def
        fun_eq_iff Let_def)

text \<open>
  C2: with \<open>0 \<le> extra_decoder_layers \<le> L\<close>, \<^verbatim>\<open>decode_fn\<close> runs the last
  \<open>extra_decoder_layers\<close> blocks on the hidden state, in increasing order, and then
  applies the final normalization, the output embedding and the log-softmax; with
  \<open>extra_decoder_layers \<le> 0\<close> it runs no block. Without a tuned lens,
  \<^verbatim>\<open>plot_logit_lens\<close> decodes every entry of the stream with \<^verbatim>\<open>decode_fn\<close>.
\<close>

theorem logit_lens_decode_order:
  "(0 \<le> k \<and> k \<le> int (length blocks) \<longrightarrow>
      decode_fn E ln_f blocks k x w =
        (case run_blocks (drop (length blocks - nat k) blocks) x w of
           (Inl e, w') \<Rightarrow> (Inl e, w')
         | (Inr y, w') \<Rightarrow> (Inr (log_softmax (E (ln_f y))), w'))) \<and>
   (k \<le> 0 \<longrightarrow> decode_fn E ln_f blocks k x w = (Inr (log_softmax (E (ln_f x))), w)) \<and>
   (final_layer_norm m = Some (LayerNorm ln_f) \<and> transformer_layers m = Some blocks \<longrightarrow>
      decode_stream m k None stream =
        smap_w (\<lambda>r. wbind (wread r) (decode_fn (output_embeddings m) ln_f blocks k)) stream \<and>
      (k \<le> 0 \<longrightarrow>
         decode_stream m k None stream w =
           (Inr (smap (\<lambda>r. log_softmax (output_embeddings m (ln_f (deref (store w) r)))) stream),
            w)))"
proof -
  have a: "0 \<le> k \<and> k \<le> int (length blocks) \<longrightarrow>
      decode_fn E ln_f blocks k x w =
        (case run_blocks (drop (length blocks - nat k) blocks) x w of
           (Inl e, w') \<Rightarrow> (Inl e, w')
         | (Inr y, w') \<Rightarrow> (Inr (log_softmax (E (ln_f y))), w'))"
    and b: "\<And>E x. k \<le> 0 \<longrightarrow> decode_fn E ln_f blocks k x w = (Inr (log_softmax (E (ln_f x))), w)"
    using decode_fn_reruns_final_blocks by blast+
  have c: "decode_stream m k None stream w =
           (Inr (smap (\<lambda>r. log_softmax (output_embeddings m (ln_f (deref (store w) r)))) stream),
            w)"
    if "final_layer_norm m = Some (LayerNorm ln_f)" "transformer_layers m = Some blocks" "k \<le> 0"
    unfolding decode_stream_logit_lens [OF that(1,2)]
    by (rule smap_w_pure) (simp add: wbind_def wread_def b [rule_format, OF that(3)])
  from a b [of E x] c decode_stream_logit_lens show ?thesis by blast
qed

theorem logit_lens_decode_order_witness:
  "decode_fn (\<lambda>x. x) (\<lambda>x. x) blocks0 2 [[[0, 0]]] w0 =
     (Inr (log_softmax [[[2, 2]]]),
      \<lparr>store = [[[[1, 1]]], [[[2, 2]]]], hooks = [], captured = [], plots = []\<rparr>) \<and>
   decode_fn (\<lambda>x. x) (\<lambda>x. x) blocks0 1 [[[0, 0]]] w0 =
     (Inr (log_softmax [[[0, 0]]]),
      \<lparr>store = [[[[0, 0]]]], hooks = [], captured = [], plots = []\<rparr>) \<and>
   decode_fn (\<lambda>x. x) (\<lambda>x. x) blocks0 0 [[[0, 0]]] w0 = (Inr (log_softmax [[[0, 0]]]), w0) \<and>
   decode_stream m0 0 None \<lparr>embeddings = None, layers = [Obj 0]\<rparr>
     \<lparr>store = [[[[3, 4]]]], hooks = [], captured = [], plots = []\<rparr> =
     (Inr \<lparr>embeddings = None, layers = [log_softmax [[[3, 4]]]]\<rparr>,
      \<lparr>store = [[[[3, 4]]]], hooks = [], captured = [], plots = []\<rparr>)"
proof -
  have l: "length blocks0 = 2" by (simp add: blocks0_def)
  have k2: "(0::int) \<le> 2 \<and> 2 \<le> int (length blocks0)" by (simp add: l)
  have k1: "(0::int) \<le> 1 \<and> 1 \<le> int (length blocks0)" by (simp add: l)
  have m: "final_layer_norm m0 = Some (LayerNorm (\<lambda>x. x)) \<and>
           transformer_layers m0 =
             Some [\<lambda>x. ([(Block 0, x)], Inr x), \<lambda>x. ([(Block 1, x)], Inr x)]"
    by (simp add: m0_def)
  note i2 = logit_lens_decode_order [where k = 2 and blocks = blocks0 and E = "\<lambda>x. x"
      and ln_f = "\<lambda>x. x" and x = "[[[0, 0]]]" and w = w0,
      THEN conjunct1, rule_format, OF k2]
  note i1 = logit_lens_decode_order [where k = 1 and blocks = blocks0 and E = "\<lambda>x. x"
      and ln_f = "\<lambda>x. x" and x = "[[[0, 0]]]" and w = w0,
      THEN conjunct1, rule_format, OF k1]
  note i0 = logit_lens_decode_order [where k = 0 and blocks = blocks0 and E = "\<lambda>x. x"
      and ln_f = "\<lambda>x. x" and x = "[[[0, 0]]]" and w = w0,
      THEN conjunct2, THEN conjunct1, rule_format]
  note istr = logit_lens_decode_order [where k = 0 and m = m0 and ln_f = "\<lambda>x. x"
      and blocks = "[\<lambda>x. ([(Block 0, x)], Inr x), \<lambda>x. ([(Block 1, x)], Inr x)]"
      and stream = "\<lparr>embeddings = None, layers = [Obj 0]\<rparr>"
      and w = "\<lparr>store = [[[[3, 4]]]], hooks = [], captured = [], plots = []\<rparr>",
      THEN conjunct2, THEN conjunct2, rule_format, OF m, THEN conjunct2, rule_format]
  have e2: "decode_fn (\<lambda>x. x) (\<lambda>x. x) blocks0 2 [[[0, 0]]] w0 =
     (Inr (log_softmax [[[2, 2]]]),
      \<lparr>store = [[[[1, 1]]], [[[2, 2]]]], hooks = [], captured = [], plots = []\<rparr>)"
    unfolding i2 by (simp add: blocks0_def w0_def call_module_def fire_def)
  have e1: "decode_fn (\<lambda>x. x) (\<lambda>x. x) blocks0 1 [[[0, 0]]] w0 =
     (Inr (log_softmax [[[0, 0]]]),
      \<lparr>store = [[[[0, 0]]]], hooks = [], captured = [], plots = []\<rparr>)"
    unfolding i1 by (simp add: blocks0_def w0_def call_module_def fire_def)
  from e2 e1 i0 istr show ?thesis by (simp add: m0_def smap_def)
qed

subsection \<open>Inputs of \<^verbatim>\<open>_run_inference\<close>, tensors changed in place\<close>











subsection \<open>Two recordings\<close>

lemma run_fail:
  "run_inference env0 (IsModel m0) (Some []) None (Some tok0) False 0 None w0 =
     (Inl (ForwardError ''empty input''),
      \<lparr>store = [[[]]], hooks = [], captured = [[Obj 0]], plots = []\<rparr>)"
  by (simp add: eval_defs m0_def w0_def tok0_def)

theorem recorder_released_on_every_exit_witness:
  "hooks_ok w0 \<and>
   run_inference env0 (IsModel m0) (Some []) None (Some tok0) False 0 None w0 =
     (Inl (ForwardError ''empty input''),
      \<lparr>store = [[[]]], hooks = [], captured = [[Obj 0]], plots = []\<rparr>) \<and>
   hooks (snd (run_inference env0 (IsModel m0) (Some []) None (Some tok0) False 0 None w0)) =
     hooks w0 \<and>
   fst (run_inference env0 (IsModel m0) (Some [5]) None (Some tok0) False 0 None
          (snd (run_inference env0 (IsModel m0) (Some []) None (Some tok0) False 0 None w0))) =
     Inr (m0, convert_ids_to_tokens tok0 [5], [[[0, 0]]],
          \<lparr>embeddings = None, layers = [Obj 1, Obj 2]\<rparr>) \<and>
   length (watched_outputs 1 (capture_targets 2 False) (fst (forward m0 [5]))) = 2"
proof -
  have ok: "hooks_ok w0" by (simp add: hooks_ok_def w0_def)
  have bs: "transformer_layers m0 =
              Some [\<lambda>x. ([(Block 0, x)], Inr x), \<lambda>x. ([(Block 1, x)], Inr x)]"
    by (simp add: m0_def)
  have f0: "snd (forward m0 []) = Inl (ForwardError ''empty input'')"
    by (simp add: m0_def)
  have sp: "(0::int) \<le> 0" by simp
  note inst = recorder_released_on_every_exit [OF ok bs,
      where env = env0 and input_ids = "Some []" and ?text = None and tokenizer = "Some tok0"
        and sublayers = False and start_pos = 0 and end_pos = None
        and ids = "[]" and e = "ForwardError ''empty input''" and tok = tok0 and sub = False
        and sp = 0 and ep = None
        and ids' = "[5]" and tok' = tok0 and sub' = False and sp' = 0 and ep' = None
        and a = 1]
  have fw: "forward m0 [5] = ([(Block 0, [[[0, 0]]]), (Block 1, [[[0, 0]]])], Inr [[[0, 0]]])"
    by (simp add: m0_def)
  from inst ok f0 sp run_fail show ?thesis
    by (simp add: fw capture_targets_def)
qed

end
